theory Spec2Isabelle
  imports
    Complex_Main
    "HOL-Library.AList"
    "HOL-Library.Char_ord"
    "HOL-Library.List_Lexorder"
    "HOL-Library.Log_Nat"
    "HOL-Library.Multiset"
    "HOL-Library.Stream"
begin

section \<open>Bootstrap resampling: the notebook's three functions\<close>

text \<open>
  The notebook defines \<^verbatim>\<open>fair\<close>, \<^verbatim>\<open>bootstrap_data\<close> and
  \<^verbatim>\<open>bootstrap_function\<close> on NumPy arrays. A one-dimensional array is a list, a
  label is a \<open>string\<close>, a Python exception is a value of \<open>error\<close> on the left of a
  sum, and NumPy's global random generator is an explicit state that every drawing
  function takes and returns.

  Floats: \<^verbatim>\<open>fair\<close> divides a count (or the float \<open>0.0\<close>) by a count with true
  division. The model keeps the exact quotient as a \<open>real\<close>; the float the code
  returns is that quotient rounded to the nearest double (rounding is monotone and
  \<open>0\<close>, \<open>1/2\<close>, \<open>3/4\<close>, \<open>1\<close> are doubles, so bounds and these values are the same
  on both sides). Counts are far below \<open>2^63\<close>, so the 64-bit counters of NumPy are
  natural numbers here.
\<close>

subsection \<open>Errors\<close>

datatype error =
    ZeroDivisionError
  | ValueError string
  | OverflowError

subsection \<open>Numbers an estimator returns, and their place in a float array\<close>

text \<open>
  An estimator hands back a Python number: a float (\<^verbatim>\<open>float\<close>, \<^verbatim>\<open>np.float64\<close>) or an
  integer of any size. The assignment \<^verbatim>\<open>result[i] = v\<close> into a \<^verbatim>\<open>float64\<close> array
  keeps a float as it is and converts an integer: to the nearest double, a tie going
  to the even significand of 53 bits, and with \<^verbatim>\<open>OverflowError\<close> when that is
  \<open>2^1024\<close> or more in magnitude.
\<close>

datatype py_number =
    PyFloat real
  | PyInt int

definition py_value :: "py_number \<Rightarrow> real" where
  "py_value v = (case v of PyFloat x \<Rightarrow> x | PyInt k \<Rightarrow> real_of_int k)"

definition round_to_double :: "int \<Rightarrow> int" where
  "round_to_double k =
     (let m = nat \<bar>k\<bar>;
          e = floorlog 2 m - 53;
          q = m div 2 ^ e;
          r = m mod 2 ^ e;
          q' = (if 2 ^ e < 2 * r \<or> (2 * r = 2 ^ e \<and> odd q) then q + 1 else q)
      in sgn k * int (q' * 2 ^ e))"

definition float64 :: "py_number \<Rightarrow> error + real" where
  "float64 v =
     (case v of
        PyFloat x \<Rightarrow> Inr x
      | PyInt k \<Rightarrow>
          (let d = round_to_double k in
           if 2 ^ 1024 \<le> \<bar>d\<bar> then Inl OverflowError else Inr (real_of_int d)))"

subsection \<open>The library calls the notebook makes\<close>

text \<open>
  \<^verbatim>\<open>np.unique(ar, return_counts=True)\<close>: the sorted distinct elements of the array
  and, beside each, the number of times it occurs.
\<close>

definition np_unique :: "'a::linorder list \<Rightarrow> 'a list \<times> nat list" where
  "np_unique ar = (let u = sort (remdups ar) in (u, map (count_list ar) u))"

text \<open>
  A \<^verbatim>\<open>dict\<close> is an association list with one entry per key. The comprehension
  \<^verbatim>\<open>{k: v for (k,v) in pairs}\<close> stores the pairs one after the other, a later pair
  replacing an earlier one with the same key.
\<close>

type_synonym ('k, 'v) dict = "('k \<times> 'v) list"

definition dict_comprehension :: "('k \<times> 'v) list \<Rightarrow> ('k, 'v) dict" where
  "dict_comprehension pairs = fold (\<lambda>(k, v) d. AList.update k v d) pairs []"

definition dict_get :: "('k, 'v) dict \<Rightarrow> 'k \<Rightarrow> 'v option" where
  "dict_get d k = map_of d k"

definition dict_items :: "('k, 'v) dict \<Rightarrow> ('k \<times> 'v) list" where
  "dict_items d = d"

text \<open>
  The random generator is the sequence of raw draws it will still hand out; a seed
  fixes that sequence. \<^verbatim>\<open>randint(low, high, size)\<close> returns the empty array for
  the size \<open>0\<close> without looking at the bounds, refuses an empty range with
  \<^verbatim>\<open>ValueError\<close>, and otherwise consumes as many draws as \<^verbatim>\<open>size\<close> says and maps
  each one into \<open>low..<high\<close>.
\<close>

type_synonym rng = "nat stream"

definition np_random_randint :: "nat \<Rightarrow> nat \<Rightarrow> nat \<Rightarrow> rng \<Rightarrow> error + (nat list \<times> rng)" where
  "np_random_randint low high sz rng =
     (if sz = 0 then Inr ([], rng)
      else if high \<le> low then Inl (ValueError ''low >= high'')
      else Inr (map (\<lambda>r. low + r mod (high - low)) (stake sz rng), sdrop sz rng))"

text \<open>
  \<^verbatim>\<open>np.random.choice(a, size=size)\<close> on a one-dimensional array, with replacement
  and without weights:
  \<^verbatim>\<open>
      pop_size = a.shape[0]
      if pop_size is 0 and np.prod(size) != 0:
          raise ValueError("'a' cannot be empty unless no samples are taken")
      ...
      idx = self.randint(0, pop_size, size=shape)
      return a[idx]
  \<close>
  An empty population is refused only when samples are asked for.
\<close>

definition np_random_choice :: "'a list \<Rightarrow> nat \<Rightarrow> rng \<Rightarrow> error + ('a list \<times> rng)" where
  "np_random_choice a sz rng =
     (let pop_size = length a in
      if pop_size = 0 \<and> sz \<noteq> 0
      then Inl (ValueError (CHR 0x27 # ''a'' @ CHR 0x27 #
                  '' cannot be empty unless no samples are taken''))
      else
        (case np_random_randint 0 pop_size sz rng of
           Inl e \<Rightarrow> Inl e
         | Inr (idx, rng') \<Rightarrow> Inr (map (\<lambda>i. a ! i) idx, rng')))"

text \<open>
  \<^verbatim>\<open>np.empty(n, dtype=float)\<close>: a fresh array of \<open>n\<close> floats; a negative \<open>n\<close> is
  refused. NumPy leaves the contents unspecified; the model fills the array with
  zeros, and \<open>bootstrap_function_initial_contents\<close> below shows that the caller's
  result does not depend on them.
\<close>

definition np_empty :: "int \<Rightarrow> error + real list" where
  "np_empty n =
     (if n < 0 then Inl (ValueError ''negative dimensions are not allowed'')
      else Inr (replicate (nat n) 0))"

text \<open>
  \<^verbatim>\<open>np.random.seed(seed)\<close> acts on the interpreter's world, of which two parts
  matter here: the state of NumPy's global generator and what the operating
  system's entropy source will hand out. With a seed the generator is started anew
  from the seed alone; with \<^verbatim>\<open>None\<close> it is started from fresh entropy. How a seed
  becomes a sequence of draws is library code (the Mersenne Twister), so it is the
  parameter \<open>init\<close>.
\<close>

record world =
  np_random_state :: rng
  os_entropy :: "nat stream"

definition np_random_seed :: "(nat \<Rightarrow> rng) \<Rightarrow> nat option \<Rightarrow> world \<Rightarrow> world" where
  "np_random_seed init seed w =
     (case seed of
        None \<Rightarrow> w\<lparr>np_random_state := init (shd (os_entropy w)),
                   os_entropy := stl (os_entropy w)\<rparr>
      | Some s \<Rightarrow> w\<lparr>np_random_state := init s\<rparr>)"

subsection \<open>\<^verbatim>\<open>fair\<close>\<close>

text \<open>
  \<^verbatim>\<open>
  def fair(data):
      value_counts = {k: v for (k,v) in zip(*np.unique(data, return_counts=True))}
      return value_counts.get('H',0.0)/sum(v for k,v in value_counts.items())
  \<close>
  The denominator is \<open>0\<close> only when the dictionary is empty; then the numerator is
  the Python float \<open>0.0\<close> and the sum is the Python integer \<open>0\<close>, and their division
  raises \<^verbatim>\<open>ZeroDivisionError\<close>.
\<close>

definition fair :: "string list \<Rightarrow> error + real" where
  "fair data =
     (let (u, c) = np_unique data;
          value_counts = dict_comprehension (zip u c);
          numerator = (case dict_get value_counts ''H'' of None \<Rightarrow> 0 | Some v \<Rightarrow> real v);
          denominator = sum_list (map (\<lambda>(k, v). v) (dict_items value_counts))
      in if denominator = 0 then Inl ZeroDivisionError
         else Inr (numerator / real denominator))"

text \<open>
  \<^verbatim>\<open>fair\<close> as the notebook passes it to \<^verbatim>\<open>bootstrap_function\<close>
  (\<^verbatim>\<open>bootstrap_function(data, fair, 200)\<close>): the number it returns is a float.
\<close>

definition fair_estimator :: "string list \<Rightarrow> error + py_number" where
  "fair_estimator data = map_sum id PyFloat (fair data)"

subsection \<open>\<^verbatim>\<open>bootstrap_data\<close>\<close>

text \<open>
  \<^verbatim>\<open>
  def bootstrap_data(data):
      return np.random.choice(data, size=data.shape[0])
  \<close>
\<close>

definition bootstrap_data :: "'a list \<Rightarrow> rng \<Rightarrow> error + ('a list \<times> rng)" where
  "bootstrap_data data rng = np_random_choice data (length data) rng"

text \<open>
  The same call with the arrays in a store, to follow what happens to the argument.
  An address is an index into the list of allocated arrays. \<^verbatim>\<open>np.random.choice\<close>
  only reads its argument; the indexing \<^verbatim>\<open>a[idx]\<close> with an index array builds a new
  array, which is allocated behind the existing ones.
\<close>

type_synonym addr = nat

type_synonym 'a store = "'a list list"

definition bootstrap_data_store ::
    "addr \<Rightarrow> 'a store \<Rightarrow> rng \<Rightarrow> error + (addr \<times> 'a store \<times> rng)" where
  "bootstrap_data_store p st rng =
     (case bootstrap_data (st ! p) rng of
        Inl e \<Rightarrow> Inl e
      | Inr (out, rng') \<Rightarrow> Inr (length st, st @ [out], rng'))"

text \<open>
  The same call in the world: the only part of the world that the body reads and
  writes is NumPy's global generator, through \<^verbatim>\<open>np.random.choice\<close>.
\<close>

definition bootstrap_data_world :: "'a list \<Rightarrow> world \<Rightarrow> error + ('a list \<times> world)" where
  "bootstrap_data_world data w =
     (case bootstrap_data data (np_random_state w) of
        Inl e \<Rightarrow> Inl e
      | Inr (out, rng') \<Rightarrow> Inr (out, w\<lparr>np_random_state := rng'\<rparr>))"

subsection \<open>\<^verbatim>\<open>bootstrap_function\<close>\<close>

text \<open>
  \<^verbatim>\<open>
  def bootstrap_function(data, f, n):
      result = np.empty(n, dtype=float)
      for i in range(n):
          data2 = bootstrap_data(data)
          result[i] = f(data2)
      return result
  \<close>
  The estimator \<open>f\<close> is any Python function, so it may raise. The loop body is one
  step of \<open>resample_loop\<close>, which runs over the indices that \<^verbatim>\<open>range(n)\<close> yields; an
  exception in the resampler, in \<open>f\<close> or in the store into the float array leaves
  the loop and the function.
\<close>

fun resample_loop ::
    "'a list \<Rightarrow> ('a list \<Rightarrow> error + py_number) \<Rightarrow> nat list \<Rightarrow> real list \<Rightarrow> rng
       \<Rightarrow> error + (real list \<times> rng)" where
  "resample_loop data f [] result rng = Inr (result, rng)"
| "resample_loop data f (i # is) result rng =
     (case bootstrap_data data rng of
        Inl e \<Rightarrow> Inl e
      | Inr (data2, rng') \<Rightarrow>
          (case f data2 of
             Inl e \<Rightarrow> Inl e
           | Inr v \<Rightarrow>
               (case float64 v of
                  Inl e \<Rightarrow> Inl e
                | Inr x \<Rightarrow> resample_loop data f is (result[i := x]) rng')))"

definition bootstrap_function ::
    "'a list \<Rightarrow> ('a list \<Rightarrow> error + py_number) \<Rightarrow> int \<Rightarrow> rng
       \<Rightarrow> error + (real list \<times> rng)" where
  "bootstrap_function data f n rng =
     (case np_empty n of
        Inl e \<Rightarrow> Inl e
      | Inr result \<Rightarrow> resample_loop data f [0..<nat n] result rng)"

subsection \<open>The successive resamples of one random source\<close>

text \<open>
  \<open>rng_after data i rng\<close> is the generator after \<open>i\<close> calls of \<^verbatim>\<open>bootstrap_data(data)\<close>
  that started from \<open>rng\<close>, and \<open>nth_resample data rng i\<close> is what call number \<open>i\<close>
  (counted from \<open>0\<close>) returns.
\<close>

fun rng_after :: "'a list \<Rightarrow> nat \<Rightarrow> rng \<Rightarrow> rng" where
  "rng_after data 0 rng = rng"
| "rng_after data (Suc i) rng =
     (case bootstrap_data data rng of
        Inl e \<Rightarrow> rng
      | Inr (data2, rng') \<Rightarrow> rng_after data i rng')"

definition nth_resample :: "'a list \<Rightarrow> rng \<Rightarrow> nat \<Rightarrow> error + 'a list" where
  "nth_resample data rng i = map_sum id fst (bootstrap_data data (rng_after data i rng))"

section \<open>Properties of \<^verbatim>\<open>fair\<close>\<close>

subsection \<open>What the dictionary holds\<close>

lemma fold_update_fresh_keys:
  "distinct (map fst ps) \<Longrightarrow> fst ` set ps \<inter> fst ` set acc = {} \<Longrightarrow>
   fold (\<lambda>(k, v) d. AList.update k v d) ps acc = acc @ ps"
proof (induction ps arbitrary: acc)
  case Nil
  then show ?case by simp
next
  case (Cons p ps)
  obtain k v where p: "p = (k, v)" by (cases p)
  have "k \<notin> fst ` set acc" using Cons.prems p by auto
  then have upd: "AList.update k v acc = acc @ [(k, v)]"
    by (induction acc) auto
  have "fold (\<lambda>(k, v) d. AList.update k v d) ps (acc @ [(k, v)]) = (acc @ [(k, v)]) @ ps"
    using Cons.prems p by (intro Cons.IH) (auto simp: image_Un)
  then show ?case using p upd by simp
qed

lemma dict_comprehension_distinct:
  "distinct (map fst ps) \<Longrightarrow> dict_comprehension ps = ps"
  using fold_update_fresh_keys [of ps "[]"] by (simp add: dict_comprehension_def)

lemma np_unique_counts_sum:
  "sum_list (map (count_list ar) (sort (remdups ar))) = length ar"
proof -
  have "sum_list (map (count_list ar) (sort (remdups ar))) = sum (count_list ar) (set ar)"
    by (subst sum_list_distinct_conv_sum_set) simp_all
  also have "\<dots> = length ar" by (rule sum_count_set) simp_all
  finally show ?thesis .
qed

text \<open>
  The closed form of \<^verbatim>\<open>fair\<close>: the counts add up to the length of the array, and the
  entry under \<^verbatim>\<open>'H'\<close>, when there is one, is the number of \<^verbatim>\<open>'H'\<close> in the array.
\<close>

lemma fair_value:
  "fair data = (if data = [] then Inl ZeroDivisionError
                else Inr (real (count_list data ''H'') / real (length data)))"
proof -
  let ?u = "sort (remdups data)"
  let ?ps = "zip ?u (map (count_list data) ?u)"
  have d: "dict_comprehension ?ps = ?ps"
    by (rule dict_comprehension_distinct) simp
  have s: "sum_list (map (\<lambda>(k, v). v) ?ps) = length data"
    using np_unique_counts_sum [of data] by (simp add: case_prod_unfold)
  have g: "map_of ?ps ''H'' = (if ''H'' \<in> set data then Some (count_list data ''H'') else None)"
    by (simp add: map_of_zip_map)
  have "fair data =
          (if length data = 0 then Inl ZeroDivisionError
           else Inr ((case map_of ?ps ''H'' of None \<Rightarrow> 0 | Some v \<Rightarrow> real v)
                       / real (length data)))"
    unfolding fair_def np_unique_def Let_def prod.case d dict_get_def dict_items_def s ..
  then show ?thesis by (simp add: g)
qed

text \<open>
  C1. On a non-empty array of labels \<^verbatim>\<open>fair\<close> returns the number of elements equal
  to \<^verbatim>\<open>'H'\<close> divided by the number of elements, a value between \<open>0\<close> and \<open>1\<close>; on
  the four arrays the notebook tests it returns \<open>0.5\<close>, \<open>0.0\<close>, \<open>1.0\<close> and \<open>0.75\<close>.
\<close>

theorem fair_fraction:
  "(data \<noteq> [] \<longrightarrow>
      fair data = Inr (real (length (filter (\<lambda>x. x = ''H'') data)) / real (length data))
      \<and> 0 \<le> real (length (filter (\<lambda>x. x = ''H'') data)) / real (length data)
      \<and> real (length (filter (\<lambda>x. x = ''H'') data)) / real (length data) \<le> 1)
   \<and> fair [''H'', ''H'', ''T'', ''T''] = Inr 0.5
   \<and> fair [''T'', ''T'', ''T'', ''T''] = Inr 0.0
   \<and> fair [''H'', ''H'', ''H'', ''H''] = Inr 1.0
   \<and> fair [''H'', ''H'', ''H'', ''T''] = Inr 0.75"
proof -
  have c: "count_list data ''H'' = length (filter (\<lambda>x. x = ''H'') data)"
    by (induction data) auto
  have le: "length (filter (\<lambda>x. x = ''H'') data) \<le> length data"
    by (rule length_filter_le)
  have general: "data \<noteq> [] \<longrightarrow>
      fair data = Inr (real (length (filter (\<lambda>x. x = ''H'') data)) / real (length data))
      \<and> 0 \<le> real (length (filter (\<lambda>x. x = ''H'') data)) / real (length data)
      \<and> real (length (filter (\<lambda>x. x = ''H'') data)) / real (length data) \<le> 1"
    using le by (simp add: fair_value c divide_le_eq_1)
  have e1: "fair [''H'', ''H'', ''T'', ''T''] = Inr 0.5"
    by (simp add: fair_value)
  have e2: "fair [''T'', ''T'', ''T'', ''T''] = Inr 0.0"
    by (simp add: fair_value)
  have e3: "fair [''H'', ''H'', ''H'', ''H''] = Inr 1.0"
    by (simp add: fair_value)
  have e4: "fair [''H'', ''H'', ''H'', ''T''] = Inr 0.75"
    by (simp add: fair_value)
  from general e1 e2 e3 e4 show ?thesis by blast
qed

theorem fair_fraction_witness:
  "[''H'', ''T'', ''T''] \<noteq> ([] :: string list)
   \<and> fair [''H'', ''T'', ''T''] = Inr (1 / 3)"
  using fair_fraction [of "[''H'', ''T'', ''T'']"] by simp

text \<open>
  C5. On the empty array \<^verbatim>\<open>fair\<close> raises \<^verbatim>\<open>ZeroDivisionError\<close>: the dictionary is
  empty, so \<^verbatim>\<open>0.0\<close> is divided by the integer \<open>0\<close>. It does not return \<open>0.0\<close>.
\<close>

theorem fair_empty:
  "fair [] = Inl ZeroDivisionError \<and> fair [] \<noteq> Inr 0"
  by (simp add: fair_value)

text \<open>
  C9. \<^verbatim>\<open>fair\<close> does not depend on the order of the observations: on a non-empty
  array and on any rearrangement of it (the same elements with the same
  multiplicities) it returns the same number.
\<close>

theorem fair_permutation_invariant:
  assumes "data \<noteq> []" and "mset data' = mset data"
  shows "\<exists>p. fair data = Inr p \<and> fair data' = Inr p"
proof -
  have len: "length data' = length data"
    using assms(2) by (rule mset_eq_length)
  have "count (mset data') ''H'' = count (mset data) ''H''"
    using assms(2) by simp
  then have cnt: "count_list data' ''H'' = count_list data ''H''"
    by (simp only: count_mset)
  have ne: "data' \<noteq> []"
    using len assms(1) by auto
  show ?thesis
    using assms(1) ne len cnt by (simp add: fair_value)
qed

theorem fair_permutation_invariant_witness:
  "[''H'', ''T'', ''T''] \<noteq> ([] :: string list)
   \<and> mset [''T'', ''H'', ''T''] = mset [''H'', ''T'', ''T'']
   \<and> (\<exists>p. fair [''H'', ''T'', ''T''] = Inr p \<and> fair [''T'', ''H'', ''T''] = Inr p)"
proof -
  have ne: "[''H'', ''T'', ''T''] \<noteq> ([] :: string list)" by simp
  have m: "mset [''T'', ''H'', ''T''] = mset [''H'', ''T'', ''T'']" by simp
  from ne m fair_permutation_invariant [OF ne m] show ?thesis by blast
qed

section \<open>Properties of \<^verbatim>\<open>bootstrap_data\<close>\<close>

text \<open>
  The generator model leaves every outcome open: any list of indices below \<open>n\<close> is
  what \<^verbatim>\<open>randint(0, n, size)\<close> returns from some generator, so "for every generator"
  below covers every possible draw.
\<close>

lemma np_random_randint_any_indices:
  assumes "\<forall>i\<in>set idx. i < n"
  shows "np_random_randint 0 n (length idx) (idx @- rng) = Inr (idx, rng)"
proof (cases "idx = []")
  case True
  then show ?thesis by (simp add: np_random_randint_def)
next
  case False
  then obtain i where "i \<in> set idx" by (cases idx) auto
  with assms have pos: "0 < n" by force
  have "map (\<lambda>r. r mod n) idx = idx"
    using assms by (induction idx) auto
  then show ?thesis
    using False pos by (simp add: np_random_randint_def stake_shift sdrop_shift)
qed

lemma bootstrap_data_empty: "bootstrap_data [] rng = Inr ([], rng)"
  by (simp add: bootstrap_data_def np_random_choice_def np_random_randint_def)

lemma bootstrap_data_value:
  "bootstrap_data data rng =
     Inr (map (\<lambda>r. data ! (r mod length data)) (stake (length data) rng),
          sdrop (length data) rng)"
proof (cases "data = []")
  case True
  then show ?thesis by (simp add: bootstrap_data_empty)
next
  case False
  then show ?thesis
    by (simp add: bootstrap_data_def np_random_choice_def np_random_randint_def comp_def Let_def)
qed

lemma bootstrap_data_shape:
  "\<exists>out rng'. bootstrap_data data rng = Inr (out, rng')
     \<and> length out = length data \<and> set out \<subseteq> set data"
proof (cases "data = []")
  case True
  then show ?thesis by (simp add: bootstrap_data_empty)
next
  case False
  let ?out = "map (\<lambda>r. data ! (r mod length data)) (stake (length data) rng)"
  have "data ! (r mod length data) \<in> set data" for r
    using False by simp
  then have "set ?out \<subseteq> set data"
    by auto
  then show ?thesis
    by (simp add: bootstrap_data_value)
qed

text \<open>
  C2. On a non-empty array, from any state of the random generator,
  \<^verbatim>\<open>bootstrap_data\<close> returns an array of the same length whose elements all occur in
  the input. The input is not changed: in any store that holds the input (at the
  address \<open>length pre\<close>, between any arrays \<open>pre\<close> and \<open>post\<close>), the store after the call
  is the store before it with the result allocated behind.
\<close>

theorem bootstrap_data_resample:
  assumes "data \<noteq> []"
  shows "\<exists>out rng'. bootstrap_data data rng = Inr (out, rng')
           \<and> length out = length data
           \<and> set out \<subseteq> set data
           \<and> (\<forall>pre post.
                 bootstrap_data_store (length pre) (pre @ data # post) rng =
                   Inr (length (pre @ data # post), pre @ data # post @ [out], rng'))"
proof -
  obtain out rng' where r: "bootstrap_data data rng = Inr (out, rng')"
    and l: "length out = length data" and s: "set out \<subseteq> set data"
    using bootstrap_data_shape [of data rng] by blast
  have "bootstrap_data_store (length pre) (pre @ data # post) rng =
          Inr (length (pre @ data # post), pre @ data # post @ [out], rng')" for pre post
    by (simp add: bootstrap_data_store_def r)
  with r l s show ?thesis by blast
qed

theorem bootstrap_data_resample_witness:
  "[''A'', ''B''] \<noteq> ([] :: string list)
   \<and> bootstrap_data [''A'', ''B''] (1 ## 0 ## sconst 5) = Inr ([''B'', ''A''], sconst 5)
   \<and> bootstrap_data_store 0 [[''A'', ''B'']] (1 ## 0 ## sconst 5) =
       Inr (1, [[''A'', ''B''], [''B'', ''A'']], sconst 5)"
  using bootstrap_data_resample [of "[''A'', ''B'']" "1 ## 0 ## sconst 5"]
  by (simp add: bootstrap_data_value bootstrap_data_store_def)

text \<open>
  C4. On the empty array \<^verbatim>\<open>bootstrap_data\<close> returns the empty array, with no error
  and from any state of the random generator: the size passed to
  \<^verbatim>\<open>np.random.choice\<close> is the length \<open>0\<close>, so no samples are taken, the empty
  population is accepted and no draw is consumed.
\<close>

theorem bootstrap_data_empty_returns_empty:
  "bootstrap_data [] rng = Inr ([], rng)"
  by (rule bootstrap_data_empty)

subsection \<open>Seeding\<close>

text \<open>
  Without a new seed, two calls in a row need not agree: the second call goes on
  where the first one left the generator.
\<close>

lemma bootstrap_data_world_advances:
  "bootstrap_data_world [''A'', ''B'']
      \<lparr>np_random_state = 1 ## 0 ## 0 ## 0 ## sconst 0, os_entropy = sconst 0\<rparr>
     = Inr ([''B'', ''A''], \<lparr>np_random_state = 0 ## 0 ## sconst 0, os_entropy = sconst 0\<rparr>)
   \<and> bootstrap_data_world [''A'', ''B'']
      \<lparr>np_random_state = 0 ## 0 ## sconst 0, os_entropy = sconst 0\<rparr>
     = Inr ([''A'', ''A''], \<lparr>np_random_state = sconst 0, os_entropy = sconst 0\<rparr>)"
  by (simp add: bootstrap_data_world_def bootstrap_data_value)

text \<open>
  Seeding from entropy does not make the call reproducible either: with a
  generator whose first two draws repeat its seed, two worlds that differ only in
  their entropy give different resamples.
\<close>

lemma bootstrap_data_world_entropy_seed:
  "map_sum id fst (bootstrap_data_world [''A'', ''B'']
      (np_random_seed (\<lambda>s. s ## s ## sconst 0) None
         \<lparr>np_random_state = sconst 0, os_entropy = 0 ## sconst 0\<rparr>))
     = Inr [''A'', ''A'']
   \<and> map_sum id fst (bootstrap_data_world [''A'', ''B'']
      (np_random_seed (\<lambda>s. s ## s ## sconst 0) None
         \<lparr>np_random_state = sconst 0, os_entropy = 1 ## sconst 0\<rparr>))
     = Inr [''B'', ''B'']"
  by (simp add: bootstrap_data_world_def bootstrap_data_value np_random_seed_def)



section \<open>Properties of \<^verbatim>\<open>bootstrap_function\<close>\<close>

subsection \<open>The store into the float array\<close>

lemma float64_PyFloat: "float64 (PyFloat x) = Inr x"
  by (simp add: float64_def)


lemma floorlog_2_53_plus_1: "floorlog 2 9007199254740993 = 54"
proof -
  have "floorlog 2 9007199254740993 \<le> 54"
    by (rule floorlog_leI) simp_all
  moreover have "\<not> floorlog 2 9007199254740993 \<le> 53"
    by (simp add: floorlog_le_iff)
  ultimately show ?thesis by simp
qed

text \<open>
  An integer that is not a double is stored rounded: \<open>2^53 + 1\<close> lies halfway
  between two doubles and goes to the even one.
\<close>

lemma float64_rounds_integer: "float64 (PyInt (2 ^ 53 + 1)) = Inr (2 ^ 53)"
  by (simp add: float64_def round_to_double_def floorlog_2_53_plus_1 Let_def)

text \<open>
  An integer of \<open>2^1024\<close> or more is not stored at all.
\<close>

lemma floorlog_2_1024: "floorlog 2 (2 ^ 1024) = 1025"
  using floorlog_power [of 1 2 1024] by (simp add: floorlog_def)

lemma round_to_double_2_1024: "round_to_double (2 ^ 1024) = 2 ^ 1024"
proof -
  have m: "nat \<bar>2 ^ 1024 :: int\<bar> = 2 ^ 1024"
    by (simp add: nat_power_eq)
  have split: "(2::nat) ^ 1024 = 2 ^ 52 * 2 ^ 972"
    by (simp only: power_add [symmetric]) simp
  have q: "(2::nat) ^ 1024 div 2 ^ 972 = 2 ^ 52" and r: "(2::nat) ^ 1024 mod 2 ^ 972 = 0"
    unfolding split by simp_all
  have s: "sgn (2 ^ 1024 :: int) = 1" by simp
  have p: "(2::int) ^ 52 * 2 ^ 972 = 2 ^ 1024"
    by (simp only: power_add [symmetric]) simp
  show ?thesis
    unfolding round_to_double_def m floorlog_2_1024 Let_def
    by (simp add: q r s p del: power_numeral)
qed

lemma float64_overflow: "float64 (PyInt (2 ^ 1024)) = Inl OverflowError"
  unfolding float64_def py_number.case round_to_double_2_1024 Let_def by simp

subsection \<open>The loop\<close>

text \<open>
  What \<^verbatim>\<open>np.empty\<close> left in the array does not matter: a loop over the indices from
  \<open>k\<close> on gives the same outcome from two arrays that agree below \<open>k\<close>.
\<close>

lemma resample_loop_initial_aux:
  "length r1 = n \<Longrightarrow> length r2 = n \<Longrightarrow> (\<forall>j<k. r1 ! j = r2 ! j) \<Longrightarrow> m = n - k \<Longrightarrow>
   resample_loop data f [k..<n] r1 rng = resample_loop data f [k..<n] r2 rng"
proof (induction m arbitrary: k r1 r2 rng)
  case 0
  then have "r1 = r2" by (intro nth_equalityI) auto
  moreover have "[k..<n] = []" using 0 by simp
  ultimately show ?case by simp
next
  case (Suc m)
  then have kn: "k < n" by simp
  then have u: "[k..<n] = k # [Suc k..<n]" by (rule upt_conv_Cons)
  have agree: "\<forall>j<Suc k. r1[k := x] ! j = r2[k := x] ! j" for x
    using Suc.prems kn by (auto simp: nth_list_update)
  have step: "resample_loop data f [Suc k..<n] (r1[k := x]) rng' =
              resample_loop data f [Suc k..<n] (r2[k := x]) rng'" for x rng'
    using Suc.prems agree by (intro Suc.IH) auto
  show ?case
    unfolding u by (simp add: step split: sum.splits prod.splits)
qed

lemma resample_loop_initial:
  "length r1 = length r2 \<Longrightarrow>
   resample_loop data f [0..<length r1] r1 rng = resample_loop data f [0..<length r1] r2 rng"
  by (rule resample_loop_initial_aux [where k = 0 and m = "length r1"]) simp_all

lemma bootstrap_function_initial_contents:
  assumes "0 \<le> n" and "length result = nat n"
  shows "resample_loop data f [0..<nat n] result rng = bootstrap_function data f n rng"
proof -
  have "resample_loop data f [0..<length result] result rng =
        resample_loop data f [0..<length result] (replicate (nat n) 0) rng"
    by (rule resample_loop_initial) (simp add: assms(2))
  then show ?thesis
    using assms by (simp add: bootstrap_function_def np_empty_def)
qed

subsection \<open>The boundary cases\<close>

lemma bootstrap_function_zero: "bootstrap_function data f 0 rng = Inr ([], rng)"
  by (simp add: bootstrap_function_def np_empty_def)

lemma bootstrap_function_negative:
  "n < 0 \<Longrightarrow> bootstrap_function data f n rng = Inl (ValueError ''negative dimensions are not allowed'')"
  by (simp add: bootstrap_function_def np_empty_def)

subsection \<open>The empty array\<close>

lemma length_fold_update: "length (fold (\<lambda>i r. r[i := x]) js r) = length r"
  by (induction js arbitrary: r) auto

lemma nth_fold_update:
  "j < length r \<Longrightarrow> fold (\<lambda>i r. r[i := x]) js r ! j = (if j \<in> set js then x else r ! j)"
  by (induction js arbitrary: r) (auto simp: nth_list_update)

lemma fold_update_all: "fold (\<lambda>i r. r[i := x]) [0..<length r] r = replicate (length r) x"
  by (rule nth_equalityI) (simp_all add: length_fold_update nth_fold_update)

lemma resample_loop_empty_data:
  "resample_loop [] f js result rng =
     (if js = [] then Inr (result, rng)
      else (case f [] of
              Inl e \<Rightarrow> Inl e
            | Inr v \<Rightarrow>
                (case float64 v of
                   Inl e \<Rightarrow> Inl e
                 | Inr x \<Rightarrow> Inr (fold (\<lambda>i r. r[i := x]) js result, rng))))"
  by (induction js arbitrary: result) (auto simp: bootstrap_data_empty split: sum.splits)

lemma bootstrap_function_empty_data:
  assumes "1 \<le> n"
  shows "bootstrap_function [] f n rng =
           (case f [] of
              Inl e \<Rightarrow> Inl e
            | Inr v \<Rightarrow>
                (case float64 v of
                   Inl e \<Rightarrow> Inl e
                 | Inr x \<Rightarrow> Inr (replicate (nat n) x, rng)))"
proof -
  have e: "np_empty n = Inr (replicate (nat n) 0)" using assms by (simp add: np_empty_def)
  have ne: "[0..<nat n] \<noteq> []" using assms by simp
  have all: "fold (\<lambda>i r. r[i := x]) [0..<nat n] (replicate (nat n) 0) = replicate (nat n) x"
    for x :: real
    using fold_update_all [of x "replicate (nat n) 0"] by simp
  have "resample_loop [] f [0..<nat n] (replicate (nat n) 0) rng =
          (case f [] of
             Inl e \<Rightarrow> Inl e
           | Inr v \<Rightarrow>
               (case float64 v of
                  Inl e \<Rightarrow> Inl e
                | Inr x \<Rightarrow> Inr (replicate (nat n) x, rng)))"
    unfolding resample_loop_empty_data using ne by (simp only: all if_False)
  then show ?thesis
    unfolding bootstrap_function_def e by simp
qed

subsection \<open>The values of a run without errors\<close>

lemma nth_resample_0: "nth_resample data rng 0 = map_sum id fst (bootstrap_data data rng)"
  by (simp add: nth_resample_def)

lemma nth_resample_Suc:
  "bootstrap_data data rng = Inr (d, rng') \<Longrightarrow>
   nth_resample data rng (Suc i) = nth_resample data rng' i"
  by (simp add: nth_resample_def)

lemma resample_loop_upt:
  assumes tot: "\<forall>ys. length ys = length data \<and> set ys \<subseteq> set data
                  \<longrightarrow> (\<exists>v x. f ys = Inr v \<and> float64 v = Inr x)"
  shows "k + m \<le> length result \<Longrightarrow>
    \<exists>res. resample_loop data f [k..<k + m] result rng = Inr (res, rng_after data m rng)
       \<and> length res = length result
       \<and> (\<forall>j<k. res ! j = result ! j)
       \<and> (\<forall>j<m. \<exists>d v. nth_resample data rng j = Inr d \<and> f d = Inr v
                      \<and> float64 v = Inr (res ! (k + j)))"
proof (induction m arbitrary: k result rng)
  case 0
  then show ?case by simp
next
  case (Suc m)
  obtain d rng1 where b: "bootstrap_data data rng = Inr (d, rng1)"
    and dl: "length d = length data" and ds: "set d \<subseteq> set data"
    using bootstrap_data_shape [of data rng] by blast
  obtain v x where fv: "f d = Inr v" and cx: "float64 v = Inr x"
    using tot dl ds by blast
  have u: "[k..<k + Suc m] = k # [Suc k..<Suc k + m]"
    by (simp add: upt_conv_Cons)
  have "Suc k + m \<le> length (result[k := x])" using Suc.prems by simp
  from Suc.IH [OF this, of rng1]
  obtain res where
    run: "resample_loop data f [Suc k..<Suc k + m] (result[k := x]) rng1
            = Inr (res, rng_after data m rng1)"
    and len: "length res = length (result[k := x])"
    and keep: "\<forall>j<Suc k. res ! j = result[k := x] ! j"
    and vals: "\<forall>j<m. \<exists>d v. nth_resample data rng1 j = Inr d \<and> f d = Inr v
                         \<and> float64 v = Inr (res ! (Suc k + j))"
    by blast
  have r1: "resample_loop data f [k..<k + Suc m] result rng = Inr (res, rng_after data (Suc m) rng)"
    unfolding u using run by (simp add: b fv cx del: upt_Suc)
  have r2: "length res = length result" using len by simp
  have r3: "\<forall>j<k. res ! j = result ! j" using keep by (simp add: nth_list_update)
  have resk: "res ! k = x" using keep Suc.prems by (simp add: nth_list_update)
  have r4: "\<exists>d v. nth_resample data rng j = Inr d \<and> f d = Inr v
              \<and> float64 v = Inr (res ! (k + j))" if "j < Suc m" for j
  proof (cases j)
    case 0
    then show ?thesis using b fv cx resk by (simp add: nth_resample_0)
  next
    case (Suc j')
    then have "j' < m" using that by simp
    with vals obtain d' v' where "nth_resample data rng1 j' = Inr d'" "f d' = Inr v'"
        "float64 v' = Inr (res ! (Suc k + j'))"
      by blast
    then show ?thesis using Suc b by (simp add: nth_resample_Suc)
  qed
  from r1 r2 r3 r4 show ?case by blast
qed

text \<open>
  C3, as the code has it. For every array, every count \<open>n \<ge> 0\<close>, every generator
  and every estimator that returns, on each array a resample of the data can be
  (same length, elements of the data), a number that a double holds exactly (any
  float, or an integer that is a double), \<^verbatim>\<open>bootstrap_function\<close> returns exactly \<open>n\<close>
  numbers, and number \<open>i\<close> is the estimator applied to the \<open>i\<close>-th resample drawn from
  the generator.
\<close>

theorem bootstrap_function_values:
  assumes "0 \<le> n"
    and "\<And>ys. length ys = length data \<Longrightarrow> set ys \<subseteq> set data
            \<Longrightarrow> \<exists>v. f ys = Inr v \<and> float64 v = Inr (py_value v)"
  shows "\<exists>vals rng'. bootstrap_function data f n rng = Inr (vals, rng')
           \<and> length vals = nat n
           \<and> (\<forall>i<nat n. \<exists>d v. nth_resample data rng i = Inr d \<and> f d = Inr v
                             \<and> vals ! i = py_value v)"
proof -
  have e: "np_empty n = Inr (replicate (nat n) 0)" using assms(1) by (simp add: np_empty_def)
  have exact: "\<forall>ys. length ys = length data \<and> set ys \<subseteq> set data
                 \<longrightarrow> (\<exists>v. f ys = Inr v \<and> float64 v = Inr (py_value v))"
    using assms(2) by blast
  then have tot: "\<forall>ys. length ys = length data \<and> set ys \<subseteq> set data
                 \<longrightarrow> (\<exists>v x. f ys = Inr v \<and> float64 v = Inr x)"
    by blast
  have "0 + nat n \<le> length (replicate (nat n) (0::real))" by simp
  from resample_loop_upt [OF tot this, where rng = rng]
  obtain res where
    run: "resample_loop data f [0..<nat n] (replicate (nat n) 0) rng
            = Inr (res, rng_after data (nat n) rng)"
    and len: "length res = nat n"
    and vals: "\<forall>j<nat n. \<exists>d v. nth_resample data rng j = Inr d \<and> f d = Inr v
                            \<and> float64 v = Inr (res ! j)"
    by auto
  have "\<exists>d v. nth_resample data rng j = Inr d \<and> f d = Inr v \<and> res ! j = py_value v"
    if "j < nat n" for j
  proof -
    from vals that obtain d v where d: "nth_resample data rng j = Inr d"
      and v: "f d = Inr v" and c: "float64 v = Inr (res ! j)"
      by blast
    have "\<exists>out rng'. bootstrap_data data (rng_after data j rng) = Inr (out, rng')
            \<and> length out = length data \<and> set out \<subseteq> set data"
      by (rule bootstrap_data_shape)
    with d have "length d = length data \<and> set d \<subseteq> set data"
      by (auto simp: nth_resample_def)
    with exact v have "float64 v = Inr (py_value v)" by auto
    with c have "res ! j = py_value v" by simp
    with d v show ?thesis by blast
  qed
  with run len show ?thesis
    unfolding bootstrap_function_def e by auto
qed

theorem bootstrap_function_values_witness:
  "(0::int) \<le> 2
   \<and> bootstrap_function [''H'', ''T''] fair_estimator 2 (1 ## 0 ## 1 ## 1 ## sconst 0)
       = Inr ([1 / 2, 0], sconst 0)
   \<and> nth_resample [''H'', ''T''] (1 ## 0 ## 1 ## 1 ## sconst 0) 0 = Inr [''T'', ''H'']
   \<and> fair_estimator [''T'', ''H''] = Inr (PyFloat (1 / 2))
   \<and> nth_resample [''H'', ''T''] (1 ## 0 ## 1 ## 1 ## sconst 0) 1 = Inr [''T'', ''T'']
   \<and> fair_estimator [''T'', ''T''] = Inr (PyFloat 0)"
proof -
  have tot: "\<exists>v. fair_estimator ys = Inr v \<and> float64 v = Inr (py_value v)"
    if "length ys = length [''H'', ''T'']" for ys
  proof -
    from that have "ys \<noteq> []" by auto
    then show ?thesis by (simp add: fair_estimator_def fair_value float64_PyFloat py_value_def)
  qed
  have "\<exists>vals rng'.
          bootstrap_function [''H'', ''T''] fair_estimator 2 (1 ## 0 ## 1 ## 1 ## sconst 0)
            = Inr (vals, rng')
          \<and> length vals = nat 2
          \<and> (\<forall>i<nat 2. \<exists>d v.
                 nth_resample [''H'', ''T''] (1 ## 0 ## 1 ## 1 ## sconst 0) i = Inr d
                 \<and> fair_estimator d = Inr v \<and> vals ! i = py_value v)"
    by (rule bootstrap_function_values) (simp, rule tot, assumption)
  then show ?thesis
    by (simp add: bootstrap_function_def np_empty_def bootstrap_data_value fair_estimator_def
        fair_value float64_PyFloat nth_resample_def numeral_2_eq_2 upt_rec)
qed

text \<open>
  An estimator that returns an integer which is not a double does not find its value
  in the result: the store rounds it.
\<close>

lemma bootstrap_function_rounds_integer:
  "bootstrap_function [''H''] (\<lambda>data2. Inr (PyInt (2 ^ 53 + 1))) 1 (0 ## sconst 0)
     = Inr ([2 ^ 53], sconst 0)"
proof -
  have "resample_loop [''H''] (\<lambda>data2. Inr (PyInt (2 ^ 53 + 1))) [0] [0] (0 ## sconst 0)
          = Inr ([2 ^ 53], sconst 0)"
    by (simp add: bootstrap_data_value float64_rounds_integer del: power_numeral)
  then show ?thesis
    by (simp add: bootstrap_function_def np_empty_def del: power_numeral)
qed

text \<open>
  The claim C3 as written covers every estimator. It fails for the notebook's own
  estimator on the empty array: \<^verbatim>\<open>fair\<close> raises \<^verbatim>\<open>ZeroDivisionError\<close> on the empty
  resample, so with the count \<open>1\<close> no value is returned. It also fails for the
  estimator that always returns the integer \<open>2^53 + 1\<close>: the one value returned is
  \<open>2^53\<close>, not the estimator's value.
\<close>

theorem bootstrap_function_values_counterexample:
  "bootstrap_function ([] :: string list) fair_estimator 1 (sconst 0) = Inl ZeroDivisionError
   \<and> bootstrap_function [''H''] (\<lambda>data2. Inr (PyInt (2 ^ 53 + 1))) 1 (0 ## sconst 0)
       = Inr ([2 ^ 53], sconst 0)
   \<and> py_value (PyInt (2 ^ 53 + 1)) \<noteq> 2 ^ 53"
proof -
  have a: "bootstrap_function ([] :: string list) fair_estimator 1 (sconst 0)
             = Inl ZeroDivisionError"
    by (simp add: bootstrap_function_empty_data fair_estimator_def fair_value)
  have c: "py_value (PyInt (2 ^ 53 + 1)) \<noteq> 2 ^ 53"
    by (simp add: py_value_def)
  from a bootstrap_function_rounds_integer c show ?thesis by (intro conjI)
qed

text \<open>
  C6. With the count \<open>0\<close>, \<^verbatim>\<open>bootstrap_function\<close> returns the empty array and leaves
  the generator as it was, for every array (the empty one too) and every estimator:
  the loop body never runs, so the outcome is the same for any two estimators, also
  for one that would raise.
\<close>

theorem bootstrap_function_zero_count:
  "bootstrap_function data f 0 rng = Inr ([], rng)
   \<and> bootstrap_function data f 0 rng = bootstrap_function data g 0 rng"
  by (simp add: bootstrap_function_zero)

text \<open>
  C7. With a negative count, \<^verbatim>\<open>bootstrap_function\<close> raises: the allocation
  \<^verbatim>\<open>np.empty(n)\<close> refuses the negative size with \<^verbatim>\<open>ValueError\<close> before anything is
  drawn or estimated. This \<^verbatim>\<open>ValueError\<close> is the code's invalid-repetition-count
  error.
\<close>

theorem bootstrap_function_negative_count:
  assumes "n < 0"
  shows "bootstrap_function data f n rng
           = Inl (ValueError ''negative dimensions are not allowed'')"
  using assms by (rule bootstrap_function_negative)

theorem bootstrap_function_negative_count_witness:
  "(-1::int) < 0
   \<and> bootstrap_function [''H'', ''T''] fair_estimator (-1) (sconst 0)
       = Inl (ValueError ''negative dimensions are not allowed'')"
  using bootstrap_function_negative_count [of "-1" "[''H'', ''T'']" fair_estimator "sconst 0"]
  by simp




end
